theory Spec2Isabelle
  imports Complex_Main "HOL-Library.AList" "HOL-Library.Product_Lexorder"
begin

section \<open>Exchange bot: rates, orders, referral bonus and the JSON stores\<close>

text \<open>
  The bot keeps its state in three JSON files (configuration, users, orders) and computes
  prices, the spread of an order and the referral bonus from them. Python floats are
  modelled by rationals: every quantity below is the exact value of the arithmetic
  expression the code writes, and a division by zero raises, as it does in Python.
\<close>

subsection \<open>Exceptions and results\<close>

datatype exn = ZeroDivisionError | TypeError | ReadError | WriteError

datatype 'a result = Returned 'a | Raised exn

subsection \<open>Rates (bot/models/rates.py)\<close>

record rates =
  ltc_usd_buy :: rat
  ltc_usd_sell :: rat
  usd_rub_buy :: rat
  usd_rub_sell :: rat

text \<open>Python's \<open>a / b\<close> on floats.\<close>

definition py_div :: "rat \<Rightarrow> rat \<Rightarrow> rat result" where
  "py_div a b = (if b = 0 then Raised ZeroDivisionError else Returned (a / b))"

definition calculate_ltc_price_in_rubles :: "rat \<Rightarrow> bool \<Rightarrow> rates \<Rightarrow> rat" where
  "calculate_ltc_price_in_rubles ltc_amount is_buy rs =
     (if is_buy then ltc_amount * ltc_usd_buy rs * usd_rub_buy rs
      else ltc_amount * ltc_usd_sell rs * usd_rub_sell rs)"

definition calculate_ltc_amount_from_rubles :: "rat \<Rightarrow> bool \<Rightarrow> rates \<Rightarrow> rat result" where
  "calculate_ltc_amount_from_rubles rub_amount is_buy rs =
     (if is_buy then py_div rub_amount (ltc_usd_buy rs * usd_rub_buy rs)
      else py_div rub_amount (ltc_usd_sell rs * usd_rub_sell rs))"


text \<open>The rate set of the default configuration.\<close>

definition default_rates :: rates where
  "default_rates =
     \<lparr>ltc_usd_buy = 80, ltc_usd_sell = 78, usd_rub_buy = 147 / 2, usd_rub_sell = 72\<rparr>"

text \<open>A rate set is valid when its four rates are strictly positive.\<close>

definition valid_rates :: "rates \<Rightarrow> bool" where
  "valid_rates rs \<longleftrightarrow>
     0 < ltc_usd_buy rs \<and> 0 < ltc_usd_sell rs \<and> 0 < usd_rub_buy rs \<and> 0 < usd_rub_sell rs"

text \<open>
  \<open>round(x, 2)\<close>: to the nearest multiple of 1/100, a tie going to the even one.
\<close>

definition py_round2 :: "rat \<Rightarrow> rat" where
  "py_round2 x =
     (let y = x * 100; f = \<lfloor>y\<rfloor>; d = y - of_int f
      in (if d < 1 / 2 then of_int f
          else if 1 / 2 < d then of_int f + 1
          else if even f then of_int f else of_int f + 1) / 100)"

text \<open>
  The spread as the operator handlers compute it (bot/utils/helpers.py), from the order
  type and the rates of the configuration: signed, and rounded to two decimals.
\<close>

definition helpers_spread :: "rat \<Rightarrow> string \<Rightarrow> rates \<Rightarrow> rat result" where
  "helpers_spread amount order_type rs =
     (let is_buy = (order_type = ''buy'');
          actual_rate =
            (if is_buy then ltc_usd_buy rs * usd_rub_buy rs
             else ltc_usd_sell rs * usd_rub_sell rs);
          our_cost_rate =
            (if is_buy then ltc_usd_sell rs * usd_rub_sell rs
             else ltc_usd_buy rs * usd_rub_buy rs)
      in case py_div amount actual_rate of
           Raised e \<Rightarrow> Raised e
         | Returned ltc_amount \<Rightarrow>
             (let our_cost = ltc_amount * our_cost_rate;
                  spread = (if is_buy then amount - our_cost else our_cost - amount)
              in Returned (py_round2 spread)))"

subsection \<open>Decimal text of integers\<close>

definition digit_char :: "nat \<Rightarrow> char" where
  "digit_char d = char_of (48 + d)"

fun digits :: "nat \<Rightarrow> string" where
  "digits n = (if n < 10 then [digit_char n] else digits (n div 10) @ [digit_char (n mod 10)])"

declare digits.simps [simp del]

text \<open>\<open>str(i)\<close> and the format \<open>{i:05d}\<close>: zeros between the sign and the digits, up
  to a width of five characters.\<close>

definition py_str :: "int \<Rightarrow> string" where
  "py_str i = (if i < 0 then CHR ''-'' # digits (nat (- i)) else digits (nat i))"

definition format_05d :: "int \<Rightarrow> string" where
  "format_05d i =
     (if i < 0
      then CHR ''-'' # replicate (4 - length (digits (nat (- i)))) CHR ''0'' @ digits (nat (- i))
      else replicate (5 - length (digits (nat i))) CHR ''0'' @ digits (nat i))"

definition order_number_of :: "int \<Rightarrow> string" where
  "order_number_of order_id = CHR ''Z'' # format_05d order_id"

subsection \<open>Configuration document (bot/config/config.py)\<close>

datatype bound = Finite int | Infinity

record level =
  level_min :: int
  level_max :: bound
  percentage :: rat

text \<open>
  The keys a configuration may carry: \<open>referral.levels\<close> is the tier table of the
  current layout, \<open>referral_levels\<close> the dictionary of the older one (its keys, decimal
  strings, read with \<open>int\<close>). The catalogue of currencies is read by none of the
  functions below and is left out.
\<close>

record config =
  admin_ids :: "int list"
  operator_ids :: "int list option"
  rates :: rates
  min_amount :: "rat option"
  referral :: "level list option"
  referral_levels :: "(int \<times> rat) list option"

definition DEFAULT_CONFIG :: config where
  "DEFAULT_CONFIG =
     \<lparr>admin_ids = [], operator_ids = Some [], rates = default_rates, min_amount = Some 1000,
      referral = Some
        [\<lparr>level_min = 1, level_max = Finite 10, percentage = 10\<rparr>,
         \<lparr>level_min = 11, level_max = Finite 25, percentage = 25 / 2\<rparr>,
         \<lparr>level_min = 26, level_max = Finite 50, percentage = 15\<rparr>,
         \<lparr>level_min = 51, level_max = Finite 100, percentage = 35 / 2\<rparr>,
         \<lparr>level_min = 101, level_max = Infinity, percentage = 20\<rparr>],
      referral_levels = None\<rparr>"

subsection \<open>Files\<close>

text \<open>
  A JSON file is absent, present but not readable as a document, or holds a document.
  Writing opens the file for truncation and dumps the document: the write goes through,
  fails before the file is touched, or fails after the truncation and leaves a file that
  no longer parses. The outcomes of the writes still to come are part of the world, and
  every attempt is recorded.
\<close>

datatype 'a json_file = Missing | Corrupt | Doc 'a

datatype write_result = WriteOk | OpenFails | DumpFails

datatype target = ConfigFile | UsersFile | OrdersFile

definition read_doc :: "'a json_file \<Rightarrow> 'a result" where
  "read_doc f =
     (case f of Doc d \<Rightarrow> Returned d | Missing \<Rightarrow> Raised ReadError | Corrupt \<Rightarrow> Raised ReadError)"

definition write_doc :: "write_result \<Rightarrow> 'a \<Rightarrow> 'a json_file \<Rightarrow> unit result \<times> 'a json_file" where
  "write_doc r d f =
     (case r of
        WriteOk \<Rightarrow> (Returned (), Doc d)
      | OpenFails \<Rightarrow> (Raised WriteError, f)
      | DumpFails \<Rightarrow> (Raised WriteError, Corrupt))"

subsection \<open>Records of the stores\<close>

text \<open>An order, with the keys \<open>create_order\<close> gives it (\<open>oid\<close> is the key \<open>id\<close>).\<close>

record order =
  oid :: int
  order_number :: string
  user_id :: int
  username :: string
  order_type :: string
  amount :: rat
  status :: string
  created_at :: string
  updated_at :: string
  operator_id :: "int option"
  operator_username :: "string option"
  completed_at :: "string option"
  spread :: "rat option"

record orders_data =
  orders :: "order list"
  next_id :: int

text \<open>
  A key the code reads with \<open>get\<close>: absent from the dictionary, present with the
  value null, or present with a value. \<open>d.get(k, default)\<close> gives the default only for
  an absent key; a null then makes \<open>len\<close> or \<open>+\<close> raise \<open>TypeError\<close>.
\<close>

datatype 'a field = Absent | Null | Val 'a

definition get_operand :: "'a field \<Rightarrow> 'a \<Rightarrow> 'a result" where
  "get_operand f dflt =
     (case f of Absent \<Rightarrow> Returned dflt | Null \<Rightarrow> Raised TypeError | Val v \<Rightarrow> Returned v)"

record user =
  u_user_id :: int
  u_username :: string
  role :: "string field"
  balance :: "rat field"
  total_volume :: "rat field"
  completed_orders :: "int field"
  discount :: rat
  referrals :: "int list field"
  referrer_id :: "int field"
  joined_at :: string

text \<open>The users document maps the identifier (its decimal text) to the user, in
  insertion order.\<close>

type_synonym users_data = "(int \<times> user) list"

record world =
  config_file :: "config json_file"
  users_file :: "users_data json_file"
  orders_file :: "orders_data json_file"
  io :: "write_result list"
  written :: "target list"

definition next_write :: "world \<Rightarrow> write_result" where
  "next_write w = (case io w of [] \<Rightarrow> WriteOk | r # _ \<Rightarrow> r)"

subsection \<open>Loading and saving the configuration\<close>

definition save_config :: "config \<Rightarrow> world \<Rightarrow> unit result \<times> world" where
  "save_config c w =
     (case write_doc (next_write w) c (config_file w) of
        (r, f) \<Rightarrow>
          (let w' = w\<lparr>config_file := f, io := tl (io w), written := written w @ [ConfigFile]\<rparr>
           in case r of
                Returned u \<Rightarrow> (Returned (), w')
              | Raised e \<Rightarrow> (Returned (), w')))"

definition load_config :: "world \<Rightarrow> config \<times> world" where
  "load_config w =
     (if config_file w \<noteq> Missing
      then (case read_doc (config_file w) of
              Returned c \<Rightarrow> (c, w)
            | Raised e \<Rightarrow> (DEFAULT_CONFIG, w))
      else (DEFAULT_CONFIG, snd (save_config DEFAULT_CONFIG w)))"

fun le_bound :: "int \<Rightarrow> bound \<Rightarrow> bool" where
  "le_bound n (Finite m) = (n \<le> m)"
| "le_bound n Infinity = True"

text \<open>The scan of the tier table: the first tier whose range holds the count.\<close>

fun scan_levels :: "level list \<Rightarrow> int \<Rightarrow> rat" where
  "scan_levels [] referral_count = 5 / 100"
| "scan_levels (l # ls) referral_count =
     (if level_min l \<le> referral_count \<and> le_bound referral_count (level_max l)
      then percentage l / 100
      else scan_levels ls referral_count)"

text \<open>The scan of the older dictionary, sorted by key: the last key not above the count.\<close>

fun scan_old_levels :: "(int \<times> rat) list \<Rightarrow> int \<Rightarrow> rat \<Rightarrow> rat" where
  "scan_old_levels [] referral_count pct = pct"
| "scan_old_levels ((lv, v) # rest) referral_count pct =
     (if lv \<le> referral_count then scan_old_levels rest referral_count v else pct)"

definition referral_percentage_of :: "config \<Rightarrow> int \<Rightarrow> rat" where
  "referral_percentage_of c referral_count =
     (case referral c of
        Some levels \<Rightarrow> scan_levels levels referral_count
      | None \<Rightarrow>
          (case referral_levels c of
             Some levels \<Rightarrow> scan_old_levels (sort levels) referral_count 0
           | None \<Rightarrow> 5 / 100))"

definition get_referral_percentage :: "int \<Rightarrow> world \<Rightarrow> rat \<times> world" where
  "get_referral_percentage referral_count w =
     (case load_config w of
        (c, w') \<Rightarrow> (referral_percentage_of c referral_count, w'))"

subsection \<open>The users store (bot/database.py)\<close>

definition get_users :: "world \<Rightarrow> users_data" where
  "get_users w = (case read_doc (users_file w) of Returned us \<Rightarrow> us | Raised e \<Rightarrow> [])"

definition save_users :: "users_data \<Rightarrow> world \<Rightarrow> unit result \<times> world" where
  "save_users us w =
     (case write_doc (next_write w) us (users_file w) of
        (r, f) \<Rightarrow>
          (let w' = w\<lparr>users_file := f, io := tl (io w), written := written w @ [UsersFile]\<rparr>
           in case r of
                Returned u \<Rightarrow> (Returned (), w')
              | Raised e \<Rightarrow> (Returned (), w')))"

definition get_user :: "int \<Rightarrow> world \<Rightarrow> user option" where
  "get_user uid w = map_of (get_users w) uid"

definition save_user :: "int \<Rightarrow> user \<Rightarrow> world \<Rightarrow> world" where
  "save_user uid user_data w = snd (save_users (AList.update uid user_data (get_users w)) w)"

subsection \<open>The orders store (bot/database.py)\<close>

definition get_orders :: "world \<Rightarrow> orders_data" where
  "get_orders w =
     (case read_doc (orders_file w) of
        Returned d \<Rightarrow> d
      | Raised e \<Rightarrow> \<lparr>orders = [], next_id = 1\<rparr>)"

definition save_orders :: "orders_data \<Rightarrow> world \<Rightarrow> unit result \<times> world" where
  "save_orders d w =
     (case write_doc (next_write w) d (orders_file w) of
        (r, f) \<Rightarrow>
          (let w' = w\<lparr>orders_file := f, io := tl (io w), written := written w @ [OrdersFile]\<rparr>
           in case r of
                Returned u \<Rightarrow> (Returned (), w')
              | Raised e \<Rightarrow> (Returned (), w')))"

definition create_order ::
  "int \<Rightarrow> string \<Rightarrow> string \<Rightarrow> rat \<Rightarrow> string \<Rightarrow> world \<Rightarrow> order \<times> world" where
  "create_order uid uname otype amt now w =
     (let orders_data = get_orders w;
          order_id = next_id orders_data;
          new_order =
            \<lparr>oid = order_id, order_number = order_number_of order_id, user_id = uid,
             username = uname, order_type = otype, amount = amt, status = ''active'',
             created_at = now, updated_at = now, operator_id = None,
             operator_username = None, completed_at = None, spread = None\<rparr>
      in (new_order,
          snd (save_orders
                 (orders_data\<lparr>orders := orders orders_data @ [new_order],
                    next_id := order_id + 1\<rparr>) w)))"

definition get_order :: "int \<Rightarrow> world \<Rightarrow> order option" where
  "get_order order_id w = find (\<lambda>x. oid x = order_id) (orders (get_orders w))"

text \<open>
  The dictionary of updates handed to \<open>update_order\<close>: one assignment per key; merging
  it into an order overwrites those keys.
\<close>

datatype assignment =
    SetId int
  | SetOrderNumber string
  | SetUserId int
  | SetUsername string
  | SetOrderType string
  | SetAmount rat
  | SetStatus string
  | SetCreatedAt string
  | SetUpdatedAt string
  | SetOperatorId "int option"
  | SetOperatorUsername "string option"
  | SetCompletedAt "string option"
  | SetSpread "rat option"

fun assign :: "assignment \<Rightarrow> order \<Rightarrow> order" where
  "assign (SetId v) x = x\<lparr>oid := v\<rparr>"
| "assign (SetOrderNumber v) x = x\<lparr>order_number := v\<rparr>"
| "assign (SetUserId v) x = x\<lparr>user_id := v\<rparr>"
| "assign (SetUsername v) x = x\<lparr>username := v\<rparr>"
| "assign (SetOrderType v) x = x\<lparr>order_type := v\<rparr>"
| "assign (SetAmount v) x = x\<lparr>amount := v\<rparr>"
| "assign (SetStatus v) x = x\<lparr>status := v\<rparr>"
| "assign (SetCreatedAt v) x = x\<lparr>created_at := v\<rparr>"
| "assign (SetUpdatedAt v) x = x\<lparr>updated_at := v\<rparr>"
| "assign (SetOperatorId v) x = x\<lparr>operator_id := v\<rparr>"
| "assign (SetOperatorUsername v) x = x\<lparr>operator_username := v\<rparr>"
| "assign (SetCompletedAt v) x = x\<lparr>completed_at := v\<rparr>"
| "assign (SetSpread v) x = x\<lparr>spread := v\<rparr>"

definition merge_updates :: "order \<Rightarrow> assignment list \<Rightarrow> order" where
  "merge_updates x updates = fold assign updates x"

text \<open>The loop of \<open>update_order\<close>: the index of the first order with the identifier.\<close>

fun first_index :: "int \<Rightarrow> order list \<Rightarrow> nat option" where
  "first_index order_id [] = None"
| "first_index order_id (x # xs) =
     (if oid x = order_id then Some 0 else map_option Suc (first_index order_id xs))"

definition update_order ::
  "int \<Rightarrow> assignment list \<Rightarrow> string \<Rightarrow> world \<Rightarrow> order option \<times> world" where
  "update_order order_id updates now w =
     (let orders_data = get_orders w
      in case first_index order_id (orders orders_data) of
           None \<Rightarrow> (None, w)
         | Some i \<Rightarrow>
             (let merged = merge_updates (orders orders_data ! i) (updates @ [SetUpdatedAt now])
              in (Some merged,
                  snd (save_orders
                         (orders_data\<lparr>orders := (orders orders_data)[i := merged]\<rparr>) w))))"

definition get_current_rates :: "world \<Rightarrow> rates \<times> world" where
  "get_current_rates w = (case load_config w of (c, w') \<Rightarrow> (rates c, w'))"

text \<open>
  \<open>ADMIN_ID\<close> is a constant of bot/config/constants.py; the functions that read it take
  it as their first argument.
\<close>

definition is_admin :: "int \<Rightarrow> int \<Rightarrow> world \<Rightarrow> bool \<times> world" where
  "is_admin ADMIN_ID uid w =
     (if uid = ADMIN_ID then (True, w)
      else case load_config w of (c, w') \<Rightarrow> (uid \<in> set (admin_ids c), w'))"

subsection \<open>Helpers (bot/utils/helpers.py)\<close>

definition check_admin :: "int \<Rightarrow> int \<Rightarrow> world \<Rightarrow> bool \<times> world" where
  "check_admin ADMIN_ID uid w =
     (if uid = ADMIN_ID then (True, w)
      else case get_user uid w of
             None \<Rightarrow> (False, w)
           | Some u \<Rightarrow> (if role u = Val ''admin'' then (True, w) else is_admin ADMIN_ID uid w))"

definition check_operator :: "int \<Rightarrow> int \<Rightarrow> world \<Rightarrow> bool \<times> world" where
  "check_operator ADMIN_ID uid w =
     (case check_admin ADMIN_ID uid w of
        (adm, w') \<Rightarrow>
          (if adm then (True, w')
           else case get_user uid w' of
                  None \<Rightarrow> (False, w')
                | Some u \<Rightarrow> (role u = Val ''operator'' \<or> role u = Val ''admin'', w')))"

definition helpers_calculate_spread :: "rat \<Rightarrow> string \<Rightarrow> world \<Rightarrow> rat result \<times> world" where
  "helpers_calculate_spread amt otype w =
     (case get_current_rates w of (rs, w') \<Rightarrow> (helpers_spread amt otype rs, w'))"

text \<open>
  \<open>process_referral_bonus\<close> returns nothing; it raises when the referrer's list of
  referrals or balance is null.
\<close>

definition process_referral_bonus :: "int \<Rightarrow> rat \<Rightarrow> world \<Rightarrow> unit result \<times> world" where
  "process_referral_bonus uid spr w =
     (case get_user uid w of
        None \<Rightarrow> (Returned (), w)
      | Some u \<Rightarrow>
          (case referrer_id u of
             Absent \<Rightarrow> (Returned (), w)
           | Null \<Rightarrow> (Returned (), w)
           | Val rid \<Rightarrow>
               (if rid = 0 then (Returned (), w)
                else case get_user rid w of
                       None \<Rightarrow> (Returned (), w)
                     | Some referrer \<Rightarrow>
                         (case get_operand (referrals referrer) [] of
                            Raised e \<Rightarrow> (Raised e, w)
                          | Returned rs \<Rightarrow>
                              (case get_referral_percentage (int (length rs)) w of
                                 (bonus_percentage, w') \<Rightarrow>
                                   (if bonus_percentage \<le> 0 then (Returned (), w')
                                    else let bonus_amount = (spr * bonus_percentage) / 100
                                         in if bonus_amount \<le> 0 then (Returned (), w')
                                            else case get_operand (balance referrer) 0 of
                                                   Raised e \<Rightarrow> (Raised e, w')
                                                 | Returned current_balance \<Rightarrow>
                                                     (Returned (),
                                                      save_user rid
                                                        (referrer\<lparr>balance :=
                                                           Val (current_balance + bonus_amount)\<rparr>)
                                                        w')))))))"

text \<open>
  \<open>send_order_notification\<close> sends its messages inside one \<open>try\<close> block and then pays
  the bonus and updates the owner's statistics; \<open>delivered\<close> says whether the messages
  went through. Whatever raises inside the block (a message, the comparison
  \<open>spread > 0\<close> on an order without a spread, the bonus, a null statistic) ends it
  there: the error is logged and what was saved before stays.
\<close>

definition send_order_notification :: "bool \<Rightarrow> order \<Rightarrow> world \<Rightarrow> world" where
  "send_order_notification delivered x w =
     (if user_id x = 0 then w
      else if \<not> delivered then w
      else case spread x of
             None \<Rightarrow> w
           | Some spr \<Rightarrow>
               (case (if 0 < spr then process_referral_bonus (user_id x) spr w
                      else (Returned (), w)) of
                  (Raised e, w1) \<Rightarrow> w1
                | (Returned done, w1) \<Rightarrow>
                    (case get_user (user_id x) w1 of
                       None \<Rightarrow> w1
                     | Some u \<Rightarrow>
                         (case get_operand (total_volume u) 0 of
                            Raised e \<Rightarrow> w1
                          | Returned v \<Rightarrow>
                              (case get_operand (completed_orders u) 0 of
                                 Raised e \<Rightarrow> w1
                               | Returned n \<Rightarrow>
                                   save_user (user_id x)
                                     (u\<lparr>total_volume := Val (v + amount x),
                                        completed_orders := Val (n + 1)\<rparr>)
                                     w1)))))"

subsection \<open>Operator handlers (bot/handlers/operator.py)\<close>

text \<open>The answer a handler gives to the operator's button press.\<close>

datatype reply =
    NoOperatorRights
  | OrderNotFound
  | AlreadyTakenOrCompleted
  | NotInProgress
  | OtherOperator
  | UpdateFailed
  | TakenInWork
  | CompletedOk

definition operator_take_order ::
  "int \<Rightarrow> int \<Rightarrow> string option \<Rightarrow> int \<Rightarrow> string \<Rightarrow> world \<Rightarrow> reply \<times> world" where
  "operator_take_order ADMIN_ID uid tg_username order_id now w =
     (case check_operator ADMIN_ID uid w of
        (allowed, w1) \<Rightarrow>
          (if \<not> allowed then (NoOperatorRights, w1)
           else case get_order order_id w1 of
                  None \<Rightarrow> (OrderNotFound, w1)
                | Some x \<Rightarrow>
                    (if status x \<noteq> ''active'' then (AlreadyTakenOrCompleted, w1)
                     else let uname =
                                (case tg_username of
                                   None \<Rightarrow> ''ID:'' @ py_str uid
                                 | Some n \<Rightarrow> (if n = [] then ''ID:'' @ py_str uid else n))
                          in case update_order order_id
                                    [SetStatus ''in_progress'', SetOperatorId (Some uid),
                                     SetOperatorUsername (Some uname)] now w1 of
                               (None, w2) \<Rightarrow> (UpdateFailed, w2)
                             | (Some updated, w2) \<Rightarrow>
                                 (TakenInWork, snd (check_operator ADMIN_ID uid w2)))))"

definition operator_complete_order ::
  "int \<Rightarrow> int \<Rightarrow> int \<Rightarrow> string \<Rightarrow> string \<Rightarrow> bool \<Rightarrow> world \<Rightarrow> reply result \<times> world" where
  "operator_complete_order ADMIN_ID uid order_id now now' delivered w =
     (case check_operator ADMIN_ID uid w of
        (allowed, w1) \<Rightarrow>
          (if \<not> allowed then (Returned NoOperatorRights, w1)
           else case get_order order_id w1 of
                  None \<Rightarrow> (Returned OrderNotFound, w1)
                | Some x \<Rightarrow>
                    (if status x \<noteq> ''in_progress'' then (Returned NotInProgress, w1)
                     else if operator_id x \<noteq> Some uid then (Returned OtherOperator, w1)
                     else case helpers_calculate_spread (amount x) (order_type x) w1 of
                            (Raised e, w2) \<Rightarrow> (Raised e, w2)
                          | (Returned spr, w2) \<Rightarrow>
                              (case update_order order_id
                                      [SetStatus ''completed'', SetCompletedAt (Some now),
                                       SetSpread (Some spr)] now' w2 of
                                 (None, w3) \<Rightarrow> (Returned UpdateFailed, w3)
                               | (Some updated, w3) \<Rightarrow>
                                   (Returned CompletedOk,
                                    send_order_notification delivered updated w3)))))"

subsection \<open>Sample data\<close>

definition order_one :: order where
  "order_one =
     \<lparr>oid = 1, order_number = ''Z00001'', user_id = 501, username = ''alice'',
      order_type = ''buy'', amount = 5880, status = ''active'', created_at = ''t0'',
      updated_at = ''t0'', operator_id = None, operator_username = None,
      completed_at = None, spread = None\<rparr>"

definition one_order_world :: world where
  "one_order_world =
     \<lparr>config_file = Doc DEFAULT_CONFIG, users_file = Doc [],
      orders_file = Doc \<lparr>orders = [order_one], next_id = 2\<rparr>, io = [], written = []\<rparr>"

definition corrupt_config_world :: world where
  "corrupt_config_world =
     \<lparr>config_file = Corrupt, users_file = Doc [], orders_file = Missing, io = [], written = []\<rparr>"

definition fresh_world :: world where
  "fresh_world =
     \<lparr>config_file = Missing, users_file = Missing, orders_file = Missing, io = [], written = []\<rparr>"

definition failing_write_world :: world where
  "failing_write_world = one_order_world\<lparr>io := [OpenFails]\<rparr>"

definition empty_orders :: orders_data where
  "empty_orders = \<lparr>orders = [], next_id = 1\<rparr>"

definition owner_user :: user where
  "owner_user =
     \<lparr>u_user_id = 501, u_username = ''alice'', role = Val ''user'', balance = Val 0,
      total_volume = Val 0, completed_orders = Val 0, discount = 0, referrals = Val [],
      referrer_id = Val 502, joined_at = ''t0''\<rparr>"

definition referrer_user :: user where
  "referrer_user =
     \<lparr>u_user_id = 502, u_username = ''bob'', role = Val ''user'', balance = Val 0,
      total_volume = Val 0, completed_orders = Val 0, discount = 0, referrals = Val [501],
      referrer_id = Null, joined_at = ''t0''\<rparr>"

definition referral_world :: world where
  "referral_world =
     \<lparr>config_file = Doc DEFAULT_CONFIG, users_file = Doc [(501, owner_user), (502, referrer_user)],
      orders_file = Doc \<lparr>orders = [], next_id = 1\<rparr>, io = [], written = []\<rparr>"

text \<open>Two worlds with the same orders file and the same attempts to write it.\<close>

definition orders_untouched :: "world \<Rightarrow> world \<Rightarrow> bool" where
  "orders_untouched w w' \<longleftrightarrow>
     orders_file w' = orders_file w \<and>
     filter (\<lambda>t. t = OrdersFile) (written w') = filter (\<lambda>t. t = OrdersFile) (written w)"

subsection \<open>The operations on orders\<close>

text \<open>
  The three operations of the repository that write the orders file: creating an order,
  an operator taking it, an operator completing it.
\<close>

datatype operation =
    CreateOrder int string string rat string
  | TakeOrder int "string option" int string
  | CompleteOrder int int string string bool

fun run_operation :: "int \<Rightarrow> operation \<Rightarrow> world \<Rightarrow> world" where
  "run_operation ADMIN_ID (CreateOrder uid uname otype amt now) w =
     snd (create_order uid uname otype amt now w)"
| "run_operation ADMIN_ID (TakeOrder uid tg_username order_id now) w =
     snd (operator_take_order ADMIN_ID uid tg_username order_id now w)"
| "run_operation ADMIN_ID (CompleteOrder uid order_id now now' delivered) w =
     snd (operator_complete_order ADMIN_ID uid order_id now now' delivered w)"

definition order_taken :: order where
  "order_taken =
     order_one\<lparr>status := ''in_progress'', operator_id := Some 7,
       operator_username := Some ''olga'', updated_at := ''t1''\<rparr>"

definition taken_world :: world where
  "taken_world =
     \<lparr>config_file = Doc DEFAULT_CONFIG, users_file = Doc [],
      orders_file = Doc \<lparr>orders = [order_taken], next_id = 2\<rparr>, io = [], written = []\<rparr>"

subsection \<open>Reading a decimal text back\<close>

text \<open>The value of a string of decimal digits; used to show that order numbers differ.\<close>

definition digit_val :: "char \<Rightarrow> nat" where
  "digit_val c = of_char c - 48"

definition undigits :: "string \<Rightarrow> nat" where
  "undigits s = foldl (\<lambda>a c. 10 * a + digit_val c) 0 s"

subsection \<open>A session of order creations\<close>

text \<open>
  The arguments of one call of \<open>create_order\<close> (owner, name, type, amount) and the
  time of the call; \<open>create_orders\<close> makes the calls one after the other.
\<close>

type_synonym order_request = "int \<times> string \<times> string \<times> rat \<times> string"

fun create_orders :: "order_request list \<Rightarrow> world \<Rightarrow> order list \<times> world" where
  "create_orders [] w = ([], w)"
| "create_orders ((uid, uname, otype, amt, now) # rs) w =
     (case create_order uid uname otype amt now w of
        (x, w1) \<Rightarrow> (case create_orders rs w1 of (xs, w2) \<Rightarrow> (x # xs, w2)))"

text \<open>The store as \<open>init_db\<close> creates it, and three requests of different kinds.\<close>

definition initial_world :: world where
  "initial_world =
     \<lparr>config_file = Doc DEFAULT_CONFIG, users_file = Doc [],
      orders_file = Doc empty_orders, io = [], written = []\<rparr>"

definition three_requests :: "order_request list" where
  "three_requests =
     [(501, ''alice'', ''buy'', 5880, ''t1''),
      (502, ''bob'', ''sell'', 1000, ''t2''),
      (501, ''alice'', ''sell'', 25000, ''t3'')]"


text \<open>The new store when the next two writes fail on opening the file.\<close>

definition unwritable_world :: world where
  "unwritable_world = initial_world\<lparr>io := [OpenFails, OpenFails]\<rparr>"

definition two_requests :: "order_request list" where
  "two_requests =
     [(501, ''alice'', ''buy'', 5880, ''t1''),
      (502, ''bob'', ''sell'', 1000, ''t2'')]"

section \<open>Properties\<close>

subsection \<open>Rates\<close>

text \<open>
  C6. For every valid rate set, amount and direction, turning a crypto amount into its
  rouble price and that price back into a crypto amount, with the rates of the same
  direction, returns the amount (exactly, over the rationals), and raises nothing.
\<close>

theorem ltc_amount_of_price_roundtrip:
  assumes "valid_rates rs"
  shows "calculate_ltc_amount_from_rubles (calculate_ltc_price_in_rubles x is_buy rs) is_buy rs
           = Returned x"
  using assms
  by (simp add: valid_rates_def calculate_ltc_amount_from_rubles_def
      calculate_ltc_price_in_rubles_def py_div_def)

theorem ltc_amount_of_price_roundtrip_witness:
  "valid_rates default_rates \<and>
   calculate_ltc_amount_from_rubles
     (calculate_ltc_price_in_rubles (5 / 2) True default_rates) True default_rates
     = Returned (5 / 2) \<and>
   calculate_ltc_amount_from_rubles
     (calculate_ltc_price_in_rubles (5 / 2) False default_rates) False default_rates
     = Returned (5 / 2)"
proof -
  have v: "valid_rates default_rates"
    by (simp add: valid_rates_def default_rates_def)
  show ?thesis
    using v ltc_amount_of_price_roundtrip [OF v, of "5 / 2" True]
      ltc_amount_of_price_roundtrip [OF v, of "5 / 2" False]
    by simp
qed



subsection \<open>The configuration store\<close>

text \<open>
  C9. \<open>load_config\<close> returns the stored document when the file holds one, and leaves the
  world as it is. When the file is absent it returns the default and attempts one write of
  the default, which is on disk afterwards when that write goes through. When the file is
  present but unreadable it returns the default and touches nothing: the bad file stays
  and no write is attempted.
\<close>

theorem load_config_cases:
  "(config_file w = Doc c \<longrightarrow> load_config w = (c, w)) \<and>
   (config_file w = Corrupt \<longrightarrow> load_config w = (DEFAULT_CONFIG, w)) \<and>
   (config_file w = Missing \<longrightarrow>
      fst (load_config w) = DEFAULT_CONFIG \<and>
      written (snd (load_config w)) = written w @ [ConfigFile] \<and>
      (next_write w = WriteOk \<longrightarrow> config_file (snd (load_config w)) = Doc DEFAULT_CONFIG))"
  by (simp add: load_config_def read_doc_def save_config_def write_doc_def Let_def
      split: write_result.splits)

theorem load_config_cases_witness:
  "config_file one_order_world = Doc DEFAULT_CONFIG \<and>
   load_config one_order_world = (DEFAULT_CONFIG, one_order_world) \<and>
   config_file corrupt_config_world = Corrupt \<and>
   load_config corrupt_config_world = (DEFAULT_CONFIG, corrupt_config_world) \<and>
   config_file fresh_world = Missing \<and> next_write fresh_world = WriteOk \<and>
   fst (load_config fresh_world) = DEFAULT_CONFIG \<and>
   written (snd (load_config fresh_world)) = [ConfigFile] \<and>
   config_file (snd (load_config fresh_world)) = Doc DEFAULT_CONFIG"
proof -
  have a: "config_file one_order_world = Doc DEFAULT_CONFIG"
    by (simp add: one_order_world_def)
  have b: "config_file corrupt_config_world = Corrupt"
    by (simp add: corrupt_config_world_def)
  have c: "config_file fresh_world = Missing" "next_write fresh_world = WriteOk"
    "written fresh_world = []"
    by (simp_all add: fresh_world_def next_write_def)
  show ?thesis
    using a b c load_config_cases [of one_order_world DEFAULT_CONFIG]
      load_config_cases [of corrupt_config_world DEFAULT_CONFIG]
      load_config_cases [of fresh_world DEFAULT_CONFIG]
    by simp
qed

subsection \<open>The orders store\<close>

lemma first_index_None: "first_index i xs = None \<longleftrightarrow> (\<forall>x \<in> set xs. oid x \<noteq> i)"
  by (induction xs) auto

text \<open>
  C10. When no order of the collection carries the identifier, \<open>update_order\<close> returns no
  record and leaves the world exactly as it was: the orders document is the same, no write
  is attempted, and no order is changed.
\<close>

theorem update_order_absent_id:
  assumes "\<forall>x \<in> set (orders (get_orders w)). oid x \<noteq> order_id"
  shows "update_order order_id updates now w = (None, w)"
proof -
  have "first_index order_id (orders (get_orders w)) = None"
    using assms by (simp add: first_index_None)
  then show ?thesis
    by (simp add: update_order_def Let_def)
qed

theorem update_order_absent_id_witness:
  "map oid (orders (get_orders one_order_world)) = [1] \<and>
   update_order 2 [SetStatus ''completed''] ''t1'' one_order_world = (None, one_order_world)"
proof -
  have ids: "map oid (orders (get_orders one_order_world)) = [1]"
    by (simp add: get_orders_def read_doc_def one_order_world_def order_one_def)
  have h: "\<forall>x \<in> set (orders (get_orders one_order_world)). oid x \<noteq> 2"
    by (simp add: get_orders_def read_doc_def one_order_world_def order_one_def)
  show ?thesis
    using ids update_order_absent_id [OF h, of "[SetStatus ''completed'']" "''t1''"] by simp
qed

subsection \<open>Saving\<close>

text \<open>
  C8, as stated, fails: a write of the orders document that fails (here before the file
  is touched) is not reported. \<open>save_orders\<close> returns normally and the file still holds
  the old document.
\<close>

theorem save_orders_failure_not_reported:
  "fst (write_doc (next_write failing_write_world) empty_orders (orders_file failing_write_world))
     = Raised WriteError \<and>
   fst (save_orders empty_orders failing_write_world) = Returned () \<and>
   orders_file (snd (save_orders empty_orders failing_write_world))
     = Doc \<lparr>orders = [order_one], next_id = 2\<rparr>"
  by (simp add: failing_write_world_def one_order_world_def save_orders_def write_doc_def
      next_write_def Let_def)

text \<open>
  C8, amended. A save never reports a failed write: \<open>save_orders\<close>, \<open>save_config\<close> and
  \<open>save_users\<close> return normally whatever the outcome of the write. Afterwards the file
  holds the new document when the write went through, its old content when the write
  failed before the file was touched, and is unreadable when it failed after the
  truncation. The stores fall back to defaults on read.
\<close>

theorem save_returns_normally:
  "fst (save_orders d w) = Returned () \<and>
   fst (save_config c w) = Returned () \<and>
   fst (save_users us w) = Returned () \<and>
   orders_file (snd (save_orders d w)) =
     (case next_write w of WriteOk \<Rightarrow> Doc d | OpenFails \<Rightarrow> orders_file w | DumpFails \<Rightarrow> Corrupt) \<and>
   config_file (snd (save_config c w)) =
     (case next_write w of WriteOk \<Rightarrow> Doc c | OpenFails \<Rightarrow> config_file w | DumpFails \<Rightarrow> Corrupt) \<and>
   users_file (snd (save_users us w)) =
     (case next_write w of WriteOk \<Rightarrow> Doc us | OpenFails \<Rightarrow> users_file w | DumpFails \<Rightarrow> Corrupt) \<and>
   get_orders (w\<lparr>orders_file := Corrupt\<rparr>) = \<lparr>orders = [], next_id = 1\<rparr> \<and>
   get_orders (w\<lparr>orders_file := Missing\<rparr>) = \<lparr>orders = [], next_id = 1\<rparr> \<and>
   fst (load_config (w\<lparr>config_file := Corrupt\<rparr>)) = DEFAULT_CONFIG"
  by (simp add: save_orders_def save_config_def save_users_def write_doc_def Let_def
      get_orders_def read_doc_def load_config_def split: write_result.splits)

subsection \<open>Referral percentage and bonus\<close>

lemma scan_levels_find:
  "scan_levels levels n =
     (case find (\<lambda>l. level_min l \<le> n \<and> le_bound n (level_max l)) levels of
        Some l \<Rightarrow> percentage l / 100 | None \<Rightarrow> 5 / 100)"
  by (induction levels) simp_all

lemma find_unique:
  assumes "l \<in> set xs" and "P l" and "\<And>l'. l' \<in> set xs \<Longrightarrow> P l' \<Longrightarrow> l' = l"
  shows "find P xs = Some l"
  using assms
proof (induction xs)
  case Nil
  then show ?case by simp
next
  case (Cons a xs)
  show ?case
  proof (cases "P a")
    case True
    have "a \<in> set (a # xs)" by simp
    then have "a = l" using True by (rule Cons.prems(3))
    with True show ?thesis by simp
  next
    case False
    have "l \<noteq> a" using False Cons.prems(2) by blast
    then have mem: "l \<in> set xs" using Cons.prems(1) by simp
    have "find P xs = Some l"
    proof (rule Cons.IH [OF mem Cons.prems(2)])
      fix l' assume "l' \<in> set xs" and p: "P l'"
      then have "l' \<in> set (a # xs)" by simp
      then show "l' = l" using p by (rule Cons.prems(3))
    qed
    with False show ?thesis by simp
  qed
qed

text \<open>
  C2, as stated, fails: with the default tier table the function returns 1/10 for ten
  referrals, not 10.
\<close>

theorem referral_percentage_is_a_fraction:
  "fst (get_referral_percentage 10 one_order_world) = 1 / 10 \<and>
   fst (get_referral_percentage 10 one_order_world) \<noteq> 10"
  by (simp add: get_referral_percentage_def load_config_def read_doc_def one_order_world_def
      referral_percentage_of_def DEFAULT_CONFIG_def)

text \<open>
  C2, amended. With a stored configuration that carries a tier table,
  \<open>get_referral_percentage\<close> returns, as a fraction (the tier's percentage divided by 100),
  the percentage of the first tier of the table whose range holds the count, which is the
  only such tier when there is just one, and 5/100 when no tier holds it. With the default
  table the values for 10, 11, 1000 and 0 referrals are 0.10, 0.125, 0.20 and 0.05.
\<close>

theorem get_referral_percentage_first_tier:
  assumes "config_file w = Doc c" and "referral c = Some levels"
  shows "fst (get_referral_percentage n w) =
           (case find (\<lambda>l. level_min l \<le> n \<and> le_bound n (level_max l)) levels of
              Some l \<Rightarrow> percentage l / 100 | None \<Rightarrow> 5 / 100) \<and>
         (\<forall>l \<in> set levels.
            level_min l \<le> n \<and> le_bound n (level_max l) \<and>
            (\<forall>l' \<in> set levels. level_min l' \<le> n \<and> le_bound n (level_max l') \<longrightarrow> l' = l)
            \<longrightarrow> fst (get_referral_percentage n w) = percentage l / 100) \<and>
         (levels = the (referral DEFAULT_CONFIG) \<longrightarrow>
            fst (get_referral_percentage 10 w) = 1 / 10 \<and>
            fst (get_referral_percentage 11 w) = 1 / 8 \<and>
            fst (get_referral_percentage 1000 w) = 1 / 5 \<and>
            fst (get_referral_percentage 0 w) = 1 / 20)"
proof (intro conjI ballI impI)
  have grp: "fst (get_referral_percentage k w) = scan_levels levels k" for k
    using assms
    by (simp add: get_referral_percentage_def load_config_def read_doc_def
        referral_percentage_of_def)
  show first: "fst (get_referral_percentage n w) =
           (case find (\<lambda>l. level_min l \<le> n \<and> le_bound n (level_max l)) levels of
              Some l \<Rightarrow> percentage l / 100 | None \<Rightarrow> 5 / 100)"
    by (simp only: grp scan_levels_find)
  {
    fix l
    assume mem: "l \<in> set levels"
      and holds: "level_min l \<le> n \<and> le_bound n (level_max l) \<and>
        (\<forall>l' \<in> set levels. level_min l' \<le> n \<and> le_bound n (level_max l') \<longrightarrow> l' = l)"
    have "find (\<lambda>l. level_min l \<le> n \<and> le_bound n (level_max l)) levels = Some l"
    proof (rule find_unique [OF mem])
      show "level_min l \<le> n \<and> le_bound n (level_max l)" using holds by blast
    next
      fix l' assume "l' \<in> set levels" "level_min l' \<le> n \<and> le_bound n (level_max l')"
      then show "l' = l" using holds by blast
    qed
    then show "fst (get_referral_percentage n w) = percentage l / 100"
      by (simp only: first option.case)
  }
  {
    assume d: "levels = the (referral DEFAULT_CONFIG)"
    have tbl: "levels =
        [\<lparr>level_min = 1, level_max = Finite 10, percentage = 10\<rparr>,
         \<lparr>level_min = 11, level_max = Finite 25, percentage = 25 / 2\<rparr>,
         \<lparr>level_min = 26, level_max = Finite 50, percentage = 15\<rparr>,
         \<lparr>level_min = 51, level_max = Finite 100, percentage = 35 / 2\<rparr>,
         \<lparr>level_min = 101, level_max = Infinity, percentage = 20\<rparr>]"
      unfolding d by (simp add: DEFAULT_CONFIG_def)
    show "fst (get_referral_percentage 10 w) = 1 / 10" unfolding grp tbl by simp
    show "fst (get_referral_percentage 11 w) = 1 / 8" unfolding grp tbl by simp
    show "fst (get_referral_percentage 1000 w) = 1 / 5" unfolding grp tbl by simp
    show "fst (get_referral_percentage 0 w) = 1 / 20" unfolding grp tbl by simp
  }
qed

theorem get_referral_percentage_first_tier_witness:
  "config_file one_order_world = Doc DEFAULT_CONFIG \<and>
   referral DEFAULT_CONFIG = Some (the (referral DEFAULT_CONFIG)) \<and>
   fst (get_referral_percentage 25 one_order_world) = 1 / 8 \<and>
   fst (get_referral_percentage 10 one_order_world) = 1 / 10 \<and>
   fst (get_referral_percentage 11 one_order_world) = 1 / 8 \<and>
   fst (get_referral_percentage 1000 one_order_world) = 1 / 5 \<and>
   fst (get_referral_percentage 0 one_order_world) = 1 / 20"
proof -
  have a: "config_file one_order_world = Doc DEFAULT_CONFIG"
    by (simp add: one_order_world_def)
  have b: "referral DEFAULT_CONFIG = Some (the (referral DEFAULT_CONFIG))"
    by (simp add: DEFAULT_CONFIG_def)
  have c: "find (\<lambda>l. level_min l \<le> 25 \<and> le_bound 25 (level_max l)) (the (referral DEFAULT_CONFIG))
            = Some \<lparr>level_min = 11, level_max = Finite 25, percentage = 25 / 2\<rparr>"
    by (simp add: DEFAULT_CONFIG_def)
  have t: "fst (get_referral_percentage 25 one_order_world) = 1 / 8"
  proof -
    have "fst (get_referral_percentage 25 one_order_world) =
        (case find (\<lambda>l. level_min l \<le> 25 \<and> le_bound 25 (level_max l))
                (the (referral DEFAULT_CONFIG)) of
           Some l \<Rightarrow> percentage l / 100 | None \<Rightarrow> 5 / 100)"
      by (rule conjunct1 [OF get_referral_percentage_first_tier [OF a b, of 25]])
    also have "\<dots> = 1 / 8"
      unfolding c by simp
    finally show ?thesis .
  qed
  have rest: "fst (get_referral_percentage 10 one_order_world) = 1 / 10 \<and>
       fst (get_referral_percentage 11 one_order_world) = 1 / 8 \<and>
       fst (get_referral_percentage 1000 one_order_world) = 1 / 5 \<and>
       fst (get_referral_percentage 0 one_order_world) = 1 / 20"
    by (rule mp [OF conjunct2 [OF conjunct2 [OF get_referral_percentage_first_tier [OF a b, of 25]]] refl])
  show ?thesis
    by (intro conjI a b t conjunct1 [OF rest] conjunct1 [OF conjunct2 [OF rest]]
        conjunct1 [OF conjunct2 [OF conjunct2 [OF rest]]]
        conjunct2 [OF conjunct2 [OF conjunct2 [OF rest]]])
qed

text \<open>
  C1 on the code: the owner 501 was referred by 502, who has one referral (tier 10 per
  cent) and a balance of 0. For a spread of 264 the bonus credited is 0.264, a hundredth
  of the 26.4 that 264 * 10 / 100 gives: the percentage arrives already divided by 100 and
  is divided by 100 once more.
\<close>

theorem process_referral_bonus_divides_twice:
  "fst (process_referral_bonus 501 264 referral_world) = Returned () \<and>
   map_option balance (get_user 502 (snd (process_referral_bonus 501 264 referral_world)))
     = Some (Val (33 / 125)) \<and>
   fst (get_referral_percentage 1 referral_world) = 1 / 10 \<and>
   (33 / 125 :: rat) \<noteq> 264 * 10 / 100"
  by (simp add: process_referral_bonus_def get_user_def get_users_def read_doc_def
      referral_world_def owner_user_def referrer_user_def get_referral_percentage_def
      load_config_def referral_percentage_of_def DEFAULT_CONFIG_def save_user_def
      save_users_def write_doc_def next_write_def get_operand_def Let_def)

subsection \<open>What the handlers leave alone\<close>

lemma orders_untouched_refl: "orders_untouched w w"
  by (simp add: orders_untouched_def)

lemma orders_untouched_trans:
  "orders_untouched w w1 \<Longrightarrow> orders_untouched w1 w2 \<Longrightarrow> orders_untouched w w2"
  by (simp add: orders_untouched_def)

lemma save_config_untouched: "orders_untouched w (snd (save_config c w))"
  by (simp add: orders_untouched_def save_config_def Let_def split: prod.splits result.splits)

lemma save_users_untouched: "orders_untouched w (snd (save_users us w))"
  by (simp add: orders_untouched_def save_users_def Let_def split: prod.splits result.splits)

lemma save_user_untouched: "orders_untouched w (save_user uid u w)"
  by (simp add: save_user_def save_users_untouched)

lemma load_config_untouched: "orders_untouched w (snd (load_config w))"
  by (simp add: load_config_def save_config_untouched orders_untouched_refl
      split: result.splits)

lemma is_admin_untouched: "orders_untouched w (snd (is_admin A uid w))"
  by (simp add: is_admin_def load_config_untouched orders_untouched_refl split: prod.splits)
    (metis load_config_untouched snd_conv)

lemma check_admin_untouched: "orders_untouched w (snd (check_admin A uid w))"
  by (simp add: check_admin_def is_admin_untouched orders_untouched_refl split: option.splits)

lemma check_operator_untouched: "orders_untouched w (snd (check_operator A uid w))"
proof -
  have "snd (check_operator A uid w) = snd (check_admin A uid w)"
    by (simp add: check_operator_def split: prod.splits option.splits)
  then show ?thesis by (simp add: check_admin_untouched)
qed

lemma orders_untouched_get_order:
  "orders_untouched w w' \<Longrightarrow> get_order k w' = get_order k w"
  by (simp add: orders_untouched_def get_order_def get_orders_def)

text \<open>
  C3. When the order exists and its status is not \<open>in_progress\<close> (an active order in
  particular), the complete handler refuses: an operator gets the answer that the order is
  not in work (a caller without operator rights is turned away before the order is looked
  at). In both cases the orders file is what it was, no write of it is attempted, and the
  order read back is the same record.
\<close>

theorem complete_refused_unless_in_progress:
  assumes "get_order order_id w = Some x" and "status x \<noteq> ''in_progress''"
  shows "fst (operator_complete_order ADMIN_ID uid order_id now now' delivered w) =
           Returned (if fst (check_operator ADMIN_ID uid w) then NotInProgress
                     else NoOperatorRights) \<and>
         orders_untouched w (snd (operator_complete_order ADMIN_ID uid order_id now now' delivered w)) \<and>
         get_order order_id (snd (operator_complete_order ADMIN_ID uid order_id now now' delivered w))
           = Some x"
proof -
  obtain allowed w1 where co: "check_operator ADMIN_ID uid w = (allowed, w1)"
    by (cases "check_operator ADMIN_ID uid w")
  have u: "orders_untouched w w1"
    using check_operator_untouched [of w ADMIN_ID uid] co by simp
  have g: "get_order order_id w1 = Some x"
    using orders_untouched_get_order [OF u] assms(1) by simp
  have r: "operator_complete_order ADMIN_ID uid order_id now now' delivered w =
      (Returned (if allowed then NotInProgress else NoOperatorRights), w1)"
    using co g assms(2) by (simp add: operator_complete_order_def)
  show ?thesis
    using r co u g by simp
qed

theorem complete_refused_unless_in_progress_witness:
  "get_order 1 one_order_world = Some order_one \<and> status order_one \<noteq> ''in_progress'' \<and>
   fst (check_operator 7 7 one_order_world) \<and>
   fst (operator_complete_order 7 7 1 ''t1'' ''t2'' True one_order_world) = Returned NotInProgress \<and>
   orders_untouched one_order_world
     (snd (operator_complete_order 7 7 1 ''t1'' ''t2'' True one_order_world)) \<and>
   get_order 1 (snd (operator_complete_order 7 7 1 ''t1'' ''t2'' True one_order_world))
     = Some order_one"
proof -
  have a: "get_order 1 one_order_world = Some order_one"
    by (simp add: get_order_def get_orders_def read_doc_def one_order_world_def order_one_def)
  have b: "status order_one \<noteq> ''in_progress''"
    by (simp add: order_one_def)
  have c: "fst (check_operator 7 7 one_order_world)"
    by (simp add: check_operator_def check_admin_def)
  show ?thesis
    using a b c complete_refused_unless_in_progress [OF a b, of 7 7 "''t1''" "''t2''" True]
    by simp
qed

subsection \<open>Status transitions\<close>

lemma first_index_find:
  "find (\<lambda>x. oid x = k) xs = Some x \<Longrightarrow>
   \<exists>i. first_index k xs = Some i \<and> i < length xs \<and> xs ! i = x"
proof (induction xs)
  case Nil
  then show ?case by simp
next
  case (Cons a xs)
  show ?case
  proof (cases "oid a = k")
    case True
    then show ?thesis using Cons.prems by simp
  next
    case False
    then have "find (\<lambda>x. oid x = k) xs = Some x" using Cons.prems by simp
    then obtain i where "first_index k xs = Some i" "i < length xs" "xs ! i = x"
      using Cons.IH by blast
    then show ?thesis using False by simp
  qed
qed

lemma find_list_update_first:
  "first_index k xs = Some i \<Longrightarrow> oid m = k \<Longrightarrow>
   find (\<lambda>x. oid x = j) (xs[i := m]) = (if j = k then Some m else find (\<lambda>x. oid x = j) xs)"
proof (induction xs arbitrary: i)
  case Nil
  then show ?case by simp
next
  case (Cons a xs)
  show ?case
  proof (cases "oid a = k")
    case True
    then have "i = 0" using Cons.prems(1) by simp
    then show ?thesis using True Cons.prems(2) by simp
  next
    case False
    then obtain i' where i': "first_index k xs = Some i'" "i = Suc i'"
      using Cons.prems(1) by (auto split: if_splits)
    have "find (\<lambda>x. oid x = j) (xs[i' := m]) =
        (if j = k then Some m else find (\<lambda>x. oid x = j) xs)"
      using Cons.IH [OF i'(1) Cons.prems(2)] .
    then show ?thesis using False i'(2) by (cases "j = k") simp_all
  qed
qed

lemma get_order_Some_doc:
  "get_order k w = Some x \<Longrightarrow> \<exists>d. orders_file w = Doc d \<and> find (\<lambda>x. oid x = k) (orders d) = Some x"
  by (cases "orders_file w") (simp_all add: get_order_def get_orders_def read_doc_def)

lemma find_oid: "find (\<lambda>x. oid x = k) xs = Some x \<Longrightarrow> oid x = k"
  by (induction xs) (auto split: if_splits)

text \<open>
  What \<open>update_order\<close> leaves in the store: an order read back afterwards is the merged
  record, under the identifier updated, or the record that was there before.
\<close>

lemma update_order_reads:
  assumes "get_order k w = Some x"
    and "oid (merge_updates x (ups @ [SetUpdatedAt now])) = k"
    and "get_order j (snd (update_order k ups now w)) = Some y"
  shows "(j = k \<and> y = merge_updates x (ups @ [SetUpdatedAt now])) \<or> get_order j w = Some y"
proof -
  obtain d where d: "orders_file w = Doc d" "find (\<lambda>x. oid x = k) (orders d) = Some x"
    using get_order_Some_doc [OF assms(1)] by blast
  obtain i where i: "first_index k (orders d) = Some i" "orders d ! i = x"
    using first_index_find [OF d(2)] by blast
  let ?m = "merge_updates x (ups @ [SetUpdatedAt now])"
  have god: "get_orders w = d"
    using d(1) by (simp add: get_orders_def read_doc_def)
  have w': "snd (update_order k ups now w) =
      snd (save_orders (d\<lparr>orders := (orders d)[i := ?m]\<rparr>) w)"
    using i by (simp add: update_order_def god Let_def)
  show ?thesis
  proof (cases "next_write w")
    case WriteOk
    then have "get_order j (snd (update_order k ups now w)) =
        find (\<lambda>x. oid x = j) ((orders d)[i := ?m])"
      by (simp add: w' save_orders_def write_doc_def get_order_def get_orders_def read_doc_def)
    also have "\<dots> = (if j = k then Some ?m else find (\<lambda>x. oid x = j) (orders d))"
      using find_list_update_first [OF i(1) assms(2)] .
    finally have "Some y = (if j = k then Some ?m else find (\<lambda>x. oid x = j) (orders d))"
      using assms(3) by simp
    then show ?thesis
      by (cases "j = k") (simp_all add: get_order_def god)
  next
    case OpenFails
    then have "get_order j (snd (update_order k ups now w)) = get_order j w"
      by (simp add: w' save_orders_def write_doc_def get_order_def get_orders_def read_doc_def)
    then show ?thesis using assms(3) by simp
  next
    case DumpFails
    then have "get_order j (snd (update_order k ups now w)) = None"
      by (simp add: w' save_orders_def write_doc_def get_order_def get_orders_def read_doc_def)
    then show ?thesis using assms(3) by simp
  qed
qed

lemma update_order_result:
  assumes "get_order k w = Some x"
  shows "fst (update_order k ups now w) = Some (merge_updates x (ups @ [SetUpdatedAt now]))"
proof -
  obtain d where d: "orders_file w = Doc d" "find (\<lambda>x. oid x = k) (orders d) = Some x"
    using get_order_Some_doc [OF assms(1)] by blast
  obtain i where i: "first_index k (orders d) = Some i" "orders d ! i = x"
    using first_index_find [OF d(2)] by blast
  have god: "get_orders w = d"
    using d(1) by (simp add: get_orders_def read_doc_def)
  show ?thesis using i by (simp add: update_order_def god Let_def)
qed

lemma get_referral_percentage_untouched:
  "orders_untouched w (snd (get_referral_percentage n w))"
  by (simp add: get_referral_percentage_def split_beta load_config_untouched)

lemma helpers_calculate_spread_untouched:
  "orders_untouched w (snd (helpers_calculate_spread amt otype w))"
  by (simp add: helpers_calculate_spread_def get_current_rates_def split_beta
      load_config_untouched)

lemma process_referral_bonus_untouched:
  "orders_untouched w (snd (process_referral_bonus uid spr w))"
proof -
  have step: "orders_untouched w (save_user rid u (snd (get_referral_percentage n w)))"
    for rid u n
    using orders_untouched_trans [OF get_referral_percentage_untouched save_user_untouched] .
  show ?thesis
    by (simp add: process_referral_bonus_def Let_def split_beta orders_untouched_refl step
        get_referral_percentage_untouched split: option.splits field.splits result.splits)
qed

lemma send_order_notification_untouched:
  "orders_untouched w (send_order_notification delivered x w)"
proof -
  have a: "orders_untouched w (save_user uid u (snd (process_referral_bonus uid' spr w)))"
    for uid u uid' spr
    using orders_untouched_trans [OF process_referral_bonus_untouched save_user_untouched] .
  show ?thesis
    by (simp add: send_order_notification_def Let_def split_beta orders_untouched_refl a
        process_referral_bonus_untouched save_user_untouched
        split: option.splits result.splits)
qed

lemma find_append_Some: "find P xs = Some x \<Longrightarrow> find P (xs @ ys) = Some x"
  by (induction xs) (auto split: if_splits)

lemma get_order_after_save:
  "get_order j (snd (save_orders d' w)) =
     (case next_write w of
        WriteOk \<Rightarrow> find (\<lambda>x. oid x = j) (orders d')
      | OpenFails \<Rightarrow> get_order j w
      | DumpFails \<Rightarrow> None)"
  by (simp add: save_orders_def write_doc_def get_order_def get_orders_def read_doc_def
      split: write_result.splits)

lemma create_order_reads:
  assumes "get_order j w = Some x"
    and "get_order j (snd (create_order uid uname otype amt now w)) = Some y"
  shows "y = x"
proof -
  obtain d where d: "orders_file w = Doc d" "find (\<lambda>x. oid x = j) (orders d) = Some x"
    using get_order_Some_doc [OF assms(1)] by blast
  have god: "get_orders w = d"
    using d(1) by (simp add: get_orders_def read_doc_def)
  have app: "find (\<lambda>x. oid x = j) (orders d @ [z]) = Some x" for z
    using d(2) by (rule find_append_Some)
  obtain z where w': "snd (create_order uid uname otype amt now w) =
      snd (save_orders (d\<lparr>orders := orders d @ [z], next_id := next_id d + 1\<rparr>) w)"
    by (simp add: create_order_def god Let_def)
  have "get_order j (snd (create_order uid uname otype amt now w)) =
      (case next_write w of WriteOk \<Rightarrow> Some x | OpenFails \<Rightarrow> Some x | DumpFails \<Rightarrow> None)"
    unfolding w' get_order_after_save using app assms(1)
    by (simp split: write_result.splits)
  then show ?thesis using assms(2)
    by (cases "next_write w") simp_all
qed

lemma take_order_reads:
  assumes "get_order j w = Some x"
    and "get_order j (snd (operator_take_order ADMIN_ID uid tg_username k now w)) = Some y"
  shows "y = x \<or>
         (j = k \<and> status x = ''active'' \<and> status y = ''in_progress'' \<and>
          operator_id y = Some uid \<and> operator_username y \<noteq> None \<and> updated_at y = now)"
proof -
  obtain allowed w1 where co: "check_operator ADMIN_ID uid w = (allowed, w1)"
    by (cases "check_operator ADMIN_ID uid w")
  have u1: "orders_untouched w w1"
    using check_operator_untouched [of w ADMIN_ID uid] co by simp
  have g1: "get_order i w1 = get_order i w" for i
    using orders_untouched_get_order [OF u1] .
  show ?thesis
  proof (cases "allowed \<and> (\<exists>xk. get_order k w1 = Some xk \<and> status xk = ''active'')")
    case False
    then have "snd (operator_take_order ADMIN_ID uid tg_username k now w) = w1"
      using co by (auto simp add: operator_take_order_def split: option.splits)
    then show ?thesis using assms g1 by simp
  next
    case True
    then obtain xk where xk: "allowed" "get_order k w1 = Some xk" "status xk = ''active''"
      by blast
    define uname where "uname =
      (case tg_username of None \<Rightarrow> ''ID:'' @ py_str uid
       | Some n \<Rightarrow> (if n = [] then ''ID:'' @ py_str uid else n))"
    define ups where "ups =
      [SetStatus ''in_progress'', SetOperatorId (Some uid), SetOperatorUsername (Some uname)]"
    define m where "m = merge_updates xk (ups @ [SetUpdatedAt now])"
    have m_eq: "m = xk\<lparr>status := ''in_progress'', operator_id := Some uid,
        operator_username := Some uname, updated_at := now\<rparr>"
      by (simp add: m_def ups_def merge_updates_def)
    have oidk: "oid xk = k"
      using xk(2) get_order_Some_doc find_oid by blast
    have res: "fst (update_order k ups now w1) = Some m"
      unfolding m_def by (rule update_order_result [OF xk(2)])
    define w2 where "w2 = snd (update_order k ups now w1)"
    have fin: "snd (operator_take_order ADMIN_ID uid tg_username k now w) =
        snd (check_operator ADMIN_ID uid w2)"
      using co xk res
      by (simp add: operator_take_order_def Let_def uname_def [symmetric] ups_def [symmetric]
          w2_def split_beta)
    have "orders_untouched w2 (snd (check_operator ADMIN_ID uid w2))"
      by (rule check_operator_untouched)
    then have "get_order j w2 = Some y"
      using orders_untouched_get_order assms(2) fin by simp
    then have "(j = k \<and> y = m) \<or> get_order j w1 = Some y"
      unfolding w2_def m_def
      using update_order_reads [OF xk(2), of ups now j y] oidk m_eq m_def by simp
    then show ?thesis
    proof
      assume a: "j = k \<and> y = m"
      then have "x = xk" using assms(1) xk(2) g1 by simp
      then show ?thesis using a xk(3) m_eq by simp
    next
      assume "get_order j w1 = Some y"
      then show ?thesis using assms(1) g1 by simp
    qed
  qed
qed

lemma complete_order_reads:
  assumes "get_order j w = Some x"
    and "get_order j (snd (operator_complete_order ADMIN_ID uid k now now' delivered w)) = Some y"
  shows "y = x \<or>
         (j = k \<and> status x = ''in_progress'' \<and> status y = ''completed'' \<and>
          operator_id x = Some uid \<and> completed_at y = Some now \<and> spread y \<noteq> None)"
proof -
  obtain allowed w1 where co: "check_operator ADMIN_ID uid w = (allowed, w1)"
    by (cases "check_operator ADMIN_ID uid w")
  have u1: "orders_untouched w w1"
    using check_operator_untouched [of w ADMIN_ID uid] co by simp
  have g1: "get_order i w1 = get_order i w" for i
    using orders_untouched_get_order [OF u1] .
  show ?thesis
  proof (cases "allowed \<and> (\<exists>xk. get_order k w1 = Some xk \<and> status xk = ''in_progress''
      \<and> operator_id xk = Some uid)")
    case False
    then have "snd (operator_complete_order ADMIN_ID uid k now now' delivered w) = w1"
      using co by (auto simp add: operator_complete_order_def split: option.splits)
    then show ?thesis using assms g1 by simp
  next
    case True
    then obtain xk where xk: "allowed" "get_order k w1 = Some xk" "status xk = ''in_progress''"
      "operator_id xk = Some uid"
      by blast
    obtain r w2 where hs: "helpers_calculate_spread (amount xk) (order_type xk) w1 = (r, w2)"
      by (cases "helpers_calculate_spread (amount xk) (order_type xk) w1")
    have u2: "orders_untouched w1 w2"
      using helpers_calculate_spread_untouched [of w1 "amount xk" "order_type xk"] hs by simp
    have g2: "get_order i w2 = get_order i w" for i
      using orders_untouched_get_order [OF u2] g1 by simp
    show ?thesis
    proof (cases r)
      case (Raised e)
      then have "snd (operator_complete_order ADMIN_ID uid k now now' delivered w) = w2"
        using co xk hs by (simp add: operator_complete_order_def)
      then show ?thesis using assms g2 by simp
    next
      case (Returned spr)
      define ups where "ups =
        [SetStatus ''completed'', SetCompletedAt (Some now), SetSpread (Some spr)]"
      define m where "m = merge_updates xk (ups @ [SetUpdatedAt now'])"
      have m_eq: "m = xk\<lparr>status := ''completed'', completed_at := Some now,
          spread := Some spr, updated_at := now'\<rparr>"
        by (simp add: m_def ups_def merge_updates_def)
      have k2: "get_order k w2 = Some xk"
        using g2 g1 xk(2) by simp
      have oidk: "oid xk = k"
        using xk(2) get_order_Some_doc find_oid by blast
      have res: "fst (update_order k ups now' w2) = Some m"
        unfolding m_def by (rule update_order_result [OF k2])
      define w3 where "w3 = snd (update_order k ups now' w2)"
      have fin: "snd (operator_complete_order ADMIN_ID uid k now now' delivered w) =
          send_order_notification delivered m w3"
        using co xk hs Returned res
        by (simp add: operator_complete_order_def ups_def [symmetric] w3_def split_beta)
      have "orders_untouched w3 (send_order_notification delivered m w3)"
        by (rule send_order_notification_untouched)
      then have "get_order j w3 = Some y"
        using orders_untouched_get_order assms(2) fin by simp
      then have "(j = k \<and> y = m) \<or> get_order j w2 = Some y"
        unfolding w3_def m_def
        using update_order_reads [OF k2, of ups now' j y] oidk m_eq m_def by simp
      then show ?thesis
      proof
        assume a: "j = k \<and> y = m"
        then have "x = xk" using assms(1) xk(2) g1 by simp
        then show ?thesis using a xk(3,4) m_eq by simp
      next
        assume "get_order j w2 = Some y"
        then show ?thesis using assms(1) g2 by simp
      qed
    qed
  qed
qed

text \<open>
  C4. Whatever operation runs (creating an order, taking one, completing one), an order
  that is in the store before and after is either the same record or has made one of two
  steps: from \<open>active\<close> to \<open>in_progress\<close>, by the take handler called for this order,
  which stamps the operator and the update time; or from \<open>in_progress\<close> to \<open>completed\<close>,
  by the complete handler called for this order by the operator it is assigned to. So an
  active order is never completed directly and a completed order never changes. Taking an
  order that is not active is refused with the answer that it is already taken or
  completed (for a caller with operator rights), and leaves the order as it is.
\<close>

theorem status_transitions:
  assumes "get_order k w = Some x"
  shows "(\<forall>y. get_order k (run_operation ADMIN_ID op w) = Some y \<longrightarrow>
            (y = x \<or>
             (status x = ''active'' \<and> status y = ''in_progress'' \<and>
              (\<exists>uid n now. op = TakeOrder uid n k now \<and> operator_id y = Some uid \<and>
                 operator_username y \<noteq> None \<and> updated_at y = now)) \<or>
             (status x = ''in_progress'' \<and> status y = ''completed'' \<and>
              (\<exists>uid now now' d. op = CompleteOrder uid k now now' d \<and>
                 operator_id x = Some uid \<and> completed_at y = Some now))) \<and>
            (status x = ''completed'' \<longrightarrow> y = x) \<and>
            \<not> (status x = ''active'' \<and> status y = ''completed'')) \<and>
         (\<forall>uid n now. status x \<noteq> ''active'' \<longrightarrow> fst (check_operator ADMIN_ID uid w) \<longrightarrow>
            fst (operator_take_order ADMIN_ID uid n k now w) = AlreadyTakenOrCompleted \<and>
            get_order k (snd (operator_take_order ADMIN_ID uid n k now w)) = Some x)"
proof (intro conjI allI impI)
  fix y
  assume y: "get_order k (run_operation ADMIN_ID op w) = Some y"
  show main: "y = x \<or>
         (status x = ''active'' \<and> status y = ''in_progress'' \<and>
          (\<exists>uid n now. op = TakeOrder uid n k now \<and> operator_id y = Some uid \<and>
             operator_username y \<noteq> None \<and> updated_at y = now)) \<or>
         (status x = ''in_progress'' \<and> status y = ''completed'' \<and>
          (\<exists>uid now now' d. op = CompleteOrder uid k now now' d \<and>
             operator_id x = Some uid \<and> completed_at y = Some now))"
  proof (cases op)
    case (CreateOrder uid uname otype amt now)
    then have "y = x"
      using create_order_reads [OF assms] y by simp
    then show ?thesis by simp
  next
    case (TakeOrder uid n j now)
    then have "get_order k (snd (operator_take_order ADMIN_ID uid n j now w)) = Some y"
      using y by simp
    from take_order_reads [OF assms this] TakeOrder show ?thesis by blast
  next
    case (CompleteOrder uid j now now' d)
    then have "get_order k (snd (operator_complete_order ADMIN_ID uid j now now' d w)) = Some y"
      using y by simp
    from complete_order_reads [OF assms this] CompleteOrder show ?thesis by blast
  qed
  show "y = x" if "status x = ''completed''"
    using main that by auto
  show "\<not> (status x = ''active'' \<and> status y = ''completed'')"
    using main by auto
next
  fix uid n now
  assume na: "status x \<noteq> ''active''" and al: "fst (check_operator ADMIN_ID uid w)"
  obtain allowed w1 where co: "check_operator ADMIN_ID uid w = (allowed, w1)"
    by (cases "check_operator ADMIN_ID uid w")
  have u1: "orders_untouched w w1"
    using check_operator_untouched [of w ADMIN_ID uid] co by simp
  have g1: "get_order k w1 = Some x"
    using orders_untouched_get_order [OF u1] assms by simp
  have r: "operator_take_order ADMIN_ID uid n k now w = (AlreadyTakenOrCompleted, w1)"
    using co g1 na al by (simp add: operator_take_order_def)
  show "fst (operator_take_order ADMIN_ID uid n k now w) = AlreadyTakenOrCompleted"
    using r by simp
  show "get_order k (snd (operator_take_order ADMIN_ID uid n k now w)) = Some x"
    using r g1 by simp
qed

theorem status_transitions_witness:
  "get_order 1 one_order_world = Some order_one \<and>
   get_order 1 (run_operation 7 (TakeOrder 7 (Some ''olga'') 1 ''t1'') one_order_world)
     = Some order_taken \<and>
   order_taken \<noteq> order_one \<and>
   status order_one = ''active'' \<and> status order_taken = ''in_progress'' \<and>
   get_order 1 taken_world = Some order_taken \<and>
   status order_taken \<noteq> ''active'' \<and>
   fst (check_operator 7 7 taken_world) \<and>
   fst (operator_take_order 7 7 (Some ''olga'') 1 ''t4'' taken_world) = AlreadyTakenOrCompleted"
proof -
  have a: "get_order 1 one_order_world = Some order_one"
    by (simp add: get_order_def get_orders_def read_doc_def one_order_world_def order_one_def)
  have b: "get_order 1 (run_operation 7 (TakeOrder 7 (Some ''olga'') 1 ''t1'') one_order_world)
     = Some order_taken"
    by (simp add: operator_take_order_def check_operator_def check_admin_def get_order_def
        get_orders_def read_doc_def one_order_world_def order_one_def order_taken_def
        update_order_def merge_updates_def save_orders_def write_doc_def next_write_def Let_def)
  have c: "order_taken \<noteq> order_one"
    by (simp add: order_taken_def order_one_def)
  have d: "get_order 1 taken_world = Some order_taken"
    by (simp add: get_order_def get_orders_def read_doc_def taken_world_def order_taken_def
        order_one_def)
  have e: "status order_taken \<noteq> ''active''"
    by (simp add: order_taken_def)
  have f: "fst (check_operator 7 7 taken_world)"
    by (simp add: check_operator_def check_admin_def)
  have step: "order_taken = order_one \<or>
      (status order_one = ''active'' \<and> status order_taken = ''in_progress'' \<and>
       (\<exists>uid n now. TakeOrder 7 (Some ''olga'') 1 ''t1'' = TakeOrder uid n 1 now \<and>
          operator_id order_taken = Some uid \<and> operator_username order_taken \<noteq> None \<and>
          updated_at order_taken = now)) \<or>
      (status order_one = ''in_progress'' \<and> status order_taken = ''completed'' \<and>
       (\<exists>uid now now' d. TakeOrder 7 (Some ''olga'') 1 ''t1'' = CompleteOrder uid 1 now now' d \<and>
          operator_id order_one = Some uid \<and> completed_at order_taken = Some now))"
    using status_transitions [OF a, of 7 "TakeOrder 7 (Some ''olga'') 1 ''t1''"] b by blast
  have st: "status order_one = ''active'' \<and> status order_taken = ''in_progress''"
    using step c by blast
  have refuse: "fst (operator_take_order 7 7 (Some ''olga'') 1 ''t4'' taken_world)
      = AlreadyTakenOrCompleted"
    using status_transitions [OF d, of 7 "TakeOrder 7 None 1 ''t4''"] e f by blast
  show ?thesis
    using a b c st d e f refuse by blast
qed

subsection \<open>Order identifiers and order numbers\<close>

lemma digit_val_digit_char: "d < 10 \<Longrightarrow> digit_val (digit_char d) = d"
  by (simp add: digit_val_def digit_char_def)

lemma digit_char_not_minus: "d < 10 \<Longrightarrow> digit_char d \<noteq> CHR ''-''"
proof
  assume d: "d < 10" and e: "digit_char d = CHR ''-''"
  have "(of_char (digit_char d) :: nat) = 48 + d"
    using d by (simp add: digit_char_def)
  moreover have "(of_char (CHR ''-'') :: nat) = 45"
    by simp
  ultimately show False using e by simp
qed

lemma undigits_snoc: "undigits (s @ [c]) = 10 * undigits s + digit_val c"
  by (simp add: undigits_def)

lemma undigits_digits: "undigits (digits n) = n"
proof (induction n rule: digits.induct)
  case (1 n)
  show ?case
  proof (cases "n < 10")
    case True
    then show ?thesis
      by (subst digits.simps) (simp add: undigits_def digit_val_digit_char)
  next
    case False
    then have "undigits (digits (n div 10)) = n div 10" using 1 by simp
    then show ?thesis using False
      by (subst digits.simps) (simp add: undigits_snoc digit_val_digit_char)
  qed
qed

lemma minus_notin_digits: "CHR ''-'' \<notin> set (digits n)"
proof (induction n rule: digits.induct)
  case (1 n)
  show ?case
  proof (cases "n < 10")
    case True
    then show ?thesis
      using digit_char_not_minus [OF True] by (subst digits.simps) auto
  next
    case False
    then have "CHR ''-'' \<notin> set (digits (n div 10))" using 1 by simp
    moreover have "digit_char (n mod 10) \<noteq> CHR ''-''" by (rule digit_char_not_minus) simp
    ultimately show ?thesis using False
      by (subst digits.simps) auto
  qed
qed

lemma undigits_zeros: "undigits (replicate k CHR ''0'' @ s) = undigits s"
proof -
  have "foldl (\<lambda>a c. 10 * a + digit_val c) 0 (replicate k CHR ''0'') = 0"
    by (induction k) (simp_all add: digit_val_def)
  then show ?thesis by (simp add: undigits_def)
qed

lemma format_05d_nonneg:
  "0 \<le> i \<Longrightarrow> undigits (format_05d i) = nat i \<and> CHR ''-'' \<notin> set (format_05d i)"
  using minus_notin_digits [of "nat i"]
  by (simp add: format_05d_def undigits_zeros undigits_digits)

lemma format_05d_neg:
  "i < 0 \<Longrightarrow> undigits (tl (format_05d i)) = nat (- i) \<and> hd (format_05d i) = CHR ''-''"
  by (simp add: format_05d_def undigits_zeros undigits_digits)

lemma format_05d_inj: "format_05d i = format_05d j \<Longrightarrow> i = j"
proof -
  assume e: "format_05d i = format_05d j"
  have ne: "format_05d k \<noteq> []" if "k < 0" for k
    using that by (simp add: format_05d_def)
  have sign: "CHR ''-'' \<in> set (format_05d k)" if "k < 0" for k
    using format_05d_neg [OF that] ne [OF that] by (metis hd_in_set)
  show ?thesis
  proof (cases "i < 0")
    case True
    then have "j < 0"
      using sign [OF True] e format_05d_nonneg [of j] by force
    then have "nat (- i) = nat (- j)"
      using format_05d_neg [of i] format_05d_neg [of j] True e by simp
    then show ?thesis using True \<open>j < 0\<close> by simp
  next
    case False
    then have "\<not> j < 0"
      using sign [of j] e format_05d_nonneg [of i] by force
    then have "nat i = nat j"
      using format_05d_nonneg [of i] format_05d_nonneg [of j] False e by simp
    then show ?thesis using False \<open>\<not> j < 0\<close> by simp
  qed
qed

lemma order_number_of_inj: "order_number_of i = order_number_of j \<Longrightarrow> i = j"
  by (simp add: order_number_of_def format_05d_inj)

lemma create_order_step:
  assumes "next_write w = WriteOk"
  shows "oid (fst (create_order uid uname otype amt now w)) = next_id (get_orders w)"
    and "order_number (fst (create_order uid uname otype amt now w)) =
           order_number_of (next_id (get_orders w))"
    and "next_id (get_orders (snd (create_order uid uname otype amt now w))) =
           next_id (get_orders w) + 1"
    and "io (snd (create_order uid uname otype amt now w)) = tl (io w)"
  using assms
  by (simp_all add: create_order_def Let_def save_orders_def write_doc_def read_doc_def
      get_orders_def [of "_\<lparr>orders_file := _, io := _, written := _\<rparr>"])

lemma create_orders_ids:
  "set (io w) \<subseteq> {WriteOk} \<Longrightarrow>
   map oid (fst (create_orders rs w)) =
     map (\<lambda>i. next_id (get_orders w) + int i) [0..<length rs] \<and>
   map order_number (fst (create_orders rs w)) =
     map order_number_of (map oid (fst (create_orders rs w)))"
proof (induction rs arbitrary: w)
  case Nil
  then show ?case by simp
next
  case (Cons r rs)
  obtain uid uname otype amt now where r: "r = (uid, uname, otype, amt, now)"
    by (cases r) auto
  define x where "x = fst (create_order uid uname otype amt now w)"
  define w1 where "w1 = snd (create_order uid uname otype amt now w)"
  have nw: "next_write w = WriteOk"
    using Cons.prems by (cases "io w") (auto simp add: next_write_def)
  have io1: "set (io w1) \<subseteq> {WriteOk}"
    using Cons.prems create_order_step(4) [OF nw, of uid uname otype amt now]
    by (cases "io w") (auto simp add: w1_def)
  have ih: "map oid (fst (create_orders rs w1)) =
      map (\<lambda>i. next_id (get_orders w1) + int i) [0..<length rs] \<and>
    map order_number (fst (create_orders rs w1)) =
      map order_number_of (map oid (fst (create_orders rs w1)))"
    using Cons.IH [OF io1] .
  have n1: "next_id (get_orders w1) = next_id (get_orders w) + 1"
    unfolding w1_def by (rule create_order_step(3) [OF nw])
  have unf: "fst (create_orders (r # rs) w) = x # fst (create_orders rs w1)"
    by (simp add: r x_def w1_def split_beta)
  have ox: "oid x = next_id (get_orders w)"
    unfolding x_def by (rule create_order_step(1) [OF nw])
  have nx: "order_number x = order_number_of (oid x)"
    unfolding ox unfolding x_def by (rule create_order_step(2) [OF nw])
  have shift: "map (\<lambda>i. next_id (get_orders w) + int i) [0..<Suc (length rs)] =
      next_id (get_orders w) # map (\<lambda>i. next_id (get_orders w) + 1 + int i) [0..<length rs]"
    by (simp add: upt_conv_Cons map_Suc_upt [symmetric] del: upt_Suc)
  have ids: "map oid (fst (create_orders (r # rs) w)) =
      map (\<lambda>i. next_id (get_orders w) + int i) [0..<length (r # rs)]"
  proof -
    have "map oid (fst (create_orders (r # rs) w)) =
        oid x # map oid (fst (create_orders rs w1))"
      by (simp only: unf list.map)
    also have "\<dots> = next_id (get_orders w) #
        map (\<lambda>i. next_id (get_orders w) + 1 + int i) [0..<length rs]"
      by (simp only: ox conjunct1 [OF ih] n1)
    also have "\<dots> = map (\<lambda>i. next_id (get_orders w) + int i) [0..<Suc (length rs)]"
      by (rule shift [symmetric])
    finally show ?thesis by (simp only: length_Cons)
  qed
  have nums: "map order_number (fst (create_orders (r # rs) w)) =
      map order_number_of (map oid (fst (create_orders (r # rs) w)))"
    by (simp only: unf list.map nx conjunct2 [OF ih])
  show ?case
    using ids nums by (rule conjI)
qed

text \<open>
  C5, as stated, fails: when the writes of the orders file fail, which \<open>save_orders\<close>
  does not report, two orders created one after the other on a new store both get the
  identifier 1 and the order number Z00001.
\<close>

theorem created_identifiers_repeat_after_failed_writes:
  "map oid (fst (create_orders two_requests unwritable_world)) = [1, 1] \<and>
   map order_number (fst (create_orders two_requests unwritable_world))
     = [''Z00001'', ''Z00001'']"
proof -
  have n: "order_number_of 1 = ''Z00001''"
    by code_simp
  show ?thesis
    by (simp add: two_requests_def unwritable_world_def initial_world_def empty_orders_def
        create_order_def get_orders_def read_doc_def save_orders_def write_doc_def
        next_write_def Let_def n)
qed

text \<open>
  C5, amended. In a session whose writes of the orders file all go through, the orders
  created one after the other get the identifiers \<open>next_id\<close>, \<open>next_id + 1\<close>, ... of
  the store they start from: strictly increasing, and starting at 1 on a store that is new
  (or absent, or unreadable). Each order number is \<open>Z\<close> followed by the identifier
  padded with zeros to five digits, and the order numbers are pairwise distinct. Nothing
  here depends on the owner, the type or the amount of the orders.
\<close>

theorem created_identifiers_increase:
  assumes "set (io w) \<subseteq> {WriteOk}"
  shows "map oid (fst (create_orders rs w)) =
           map (\<lambda>i. next_id (get_orders w) + int i) [0..<length rs] \<and>
         sorted_wrt (<) (map oid (fst (create_orders rs w))) \<and>
         map order_number (fst (create_orders rs w)) =
           map order_number_of (map oid (fst (create_orders rs w))) \<and>
         distinct (map order_number (fst (create_orders rs w))) \<and>
         (orders_file w = Doc empty_orders \<or> orders_file w = Missing \<or> orders_file w = Corrupt
            \<longrightarrow> map oid (fst (create_orders rs w)) = map (\<lambda>i. 1 + int i) [0..<length rs])"
proof -
  let ?n = "next_id (get_orders w)"
  let ?os = "fst (create_orders rs w)"
  have ids: "map oid ?os = map (\<lambda>i. ?n + int i) [0..<length rs]"
    and nums: "map order_number ?os = map order_number_of (map oid ?os)"
    using create_orders_ids [OF assms, of rs] by blast+
  have incr: "sorted_wrt (<) (map oid ?os)"
    unfolding ids by (simp add: sorted_wrt_map sorted_wrt_upt [THEN sorted_wrt_mono_rel, rotated])
  have inj: "inj_on (\<lambda>i. order_number_of (?n + int i)) (set [0..<length rs])"
  proof (rule inj_onI)
    fix a b assume "order_number_of (?n + int a) = order_number_of (?n + int b)"
    then have "?n + int a = ?n + int b" by (rule order_number_of_inj)
    then show "a = b" by simp
  qed
  have dist: "distinct (map order_number ?os)"
    unfolding nums ids using inj by (simp add: distinct_map comp_def)
  have fresh: "map oid ?os = map (\<lambda>i. 1 + int i) [0..<length rs]"
    if "orders_file w = Doc empty_orders \<or> orders_file w = Missing \<or> orders_file w = Corrupt"
  proof -
    have "?n = 1"
      using that by (auto simp add: get_orders_def read_doc_def empty_orders_def)
    then show ?thesis using ids by simp
  qed
  show ?thesis
    using ids incr nums dist fresh by blast
qed

theorem created_identifiers_increase_witness:
  "set (io initial_world) \<subseteq> {WriteOk} \<and>
   orders_file initial_world = Doc empty_orders \<and>
   map oid (fst (create_orders three_requests initial_world)) = [1, 2, 3] \<and>
   map order_number (fst (create_orders three_requests initial_world))
     = [''Z00001'', ''Z00002'', ''Z00003'']"
proof -
  have a: "set (io initial_world) \<subseteq> {WriteOk}"
    by (simp add: initial_world_def)
  have b: "orders_file initial_world = Doc empty_orders"
    by (simp add: initial_world_def)
  have len: "[0..<length three_requests] = [0, 1, 2]"
    by (simp add: three_requests_def upt_rec)
  have ids: "map oid (fst (create_orders three_requests initial_world)) = [1, 2, 3]"
  proof -
    have "map oid (fst (create_orders three_requests initial_world)) =
        map (\<lambda>i. 1 + int i) [0..<length three_requests]"
      using created_identifiers_increase [OF a, of three_requests] b by blast
    then show ?thesis unfolding len by simp
  qed
  have n: "order_number_of 1 = ''Z00001''" "order_number_of 2 = ''Z00002''"
    "order_number_of 3 = ''Z00003''"
    by code_simp+
  have nums: "map order_number (fst (create_orders three_requests initial_world))
     = [''Z00001'', ''Z00002'', ''Z00003'']"
  proof -
    have "map order_number (fst (create_orders three_requests initial_world)) =
        map order_number_of (map oid (fst (create_orders three_requests initial_world)))"
      using created_identifiers_increase [OF a, of three_requests] by blast
    then show ?thesis unfolding ids using n by simp
  qed
  show ?thesis
    using a b ids nums by blast
qed

end
